theory Spec2Isabelle
  imports Complex_Main
begin

section \<open>Values carried by the relay's messages\<close>

text \<open>
  The drawing relay (\<^verbatim>\<open>drawing-server/server.js\<close>) keeps one registry
  \<^verbatim>\<open>rooms\<close>, a \<^verbatim>\<open>Map\<close> from a room key to a \<^verbatim>\<open>Set\<close> of sockets, and two
  variables per connection, \<^verbatim>\<open>currentRoom\<close> and \<^verbatim>\<open>clientId\<close>. Every inbound
  message goes through \<^verbatim>\<open>JSON.parse\<close>; the fields \<^verbatim>\<open>roomId\<close>, \<^verbatim>\<open>clientId\<close> and
  the drawing fields are used as parsed, with no check of their type, so the model
  carries arbitrary parsed values.

  A socket is named by a number. A parsed value is one of JavaScript's values that
  \<^verbatim>\<open>JSON.parse\<close> can build, or \<^verbatim>\<open>undefined\<close> (what reading an absent property gives):
  \<^item> a number is the double it denotes: a finite double is an exact rational
    (\<open>-0\<close> is \<open>0\<close> here: the truth test, the \<^verbatim>\<open>Map\<close>'s key comparison and string
    conversion do not tell them apart), and a literal beyond the range of doubles
    parses to an infinity;
  \<^item> a string is the list of its bytes;
  \<^item> an array or an object carries the identity it was allocated with: a \<^verbatim>\<open>Map\<close>
    compares such keys by identity, so two arrays with the same elements that came
    from two messages are two keys. An object is the list of its own properties.
\<close>

type_synonym conn = nat

datatype jsval =
    JUndefined
  | JNull
  | JBool bool
  | JNum rat
  | JInfinity bool
  | JStr string
  | JArr nat "jsval list"
  | JObj nat "(string \<times> jsval) list"

text \<open>
  \<^verbatim>\<open>data.name\<close> for a parsed \<^verbatim>\<open>data\<close> other than \<^verbatim>\<open>null\<close>: the own property of an
  object, \<^verbatim>\<open>undefined\<close> when it has none or when \<^verbatim>\<open>data\<close> is a number, a boolean, a
  string or an array. (None of the names the server reads, \<^verbatim>\<open>type\<close>, \<^verbatim>\<open>roomId\<close>,
  \<^verbatim>\<open>clientId\<close>, \<^verbatim>\<open>x\<close>, \<^verbatim>\<open>y\<close>, \<^verbatim>\<open>prevX\<close>, \<^verbatim>\<open>prevY\<close>, \<^verbatim>\<open>color\<close>, \<^verbatim>\<open>lineWidth\<close>,
  \<^verbatim>\<open>drawerId\<close>, is inherited from a prototype.)
\<close>

fun own_property :: "(string \<times> jsval) list \<Rightarrow> string \<Rightarrow> jsval" where
  "own_property [] name = JUndefined"
| "own_property ((k, v) # kvs) name = (if k = name then v else own_property kvs name)"

fun get_field :: "jsval \<Rightarrow> string \<Rightarrow> jsval" where
  "get_field (JObj a kvs) name = own_property kvs name"
| "get_field v name = JUndefined"

text \<open>
  The truth test of \<^verbatim>\<open>currentRoom && ...\<close>: \<^verbatim>\<open>undefined\<close>, \<^verbatim>\<open>null\<close>, \<^verbatim>\<open>false\<close>,
  \<open>0\<close> and the empty string are falsy, every other value is truthy.
\<close>

fun truthy :: "jsval \<Rightarrow> bool" where
  "truthy JUndefined = False"
| "truthy JNull = False"
| "truthy (JBool b) = b"
| "truthy (JNum q) = (q \<noteq> 0)"
| "truthy (JInfinity b) = True"
| "truthy (JStr s) = (s \<noteq> [])"
| "truthy (JArr a vs) = True"
| "truthy (JObj a kvs) = True"

text \<open>
  The exceptions that can reach the handler: \<^verbatim>\<open>JSON.parse\<close> rejecting the text, a
  \<^verbatim>\<open>TypeError\<close>, a \<^verbatim>\<open>RangeError\<close> (the engine's call stack is exhausted), and an
  error raised by the transport's \<^verbatim>\<open>send\<close>.
\<close>

datatype exn = SyntaxError | TypeError | RangeError | SendError

primrec first_exn :: "exn option list \<Rightarrow> exn option" where
  "first_exn [] = None"
| "first_exn (e # es) = (case e of None \<Rightarrow> first_exn es | Some x \<Rightarrow> Some x)"

text \<open>
  The log lines are template literals, \<^verbatim>\<open>`Client ${clientId} joined room ${currentRoom}`\<close>,
  which convert both values to strings before \<^verbatim>\<open>console.log\<close> is called.
  \<^item> The conversion of an object calls its \<^verbatim>\<open>toString\<close>; an object parsed from JSON
    that has an own property \<^verbatim>\<open>toString\<close> holds a value there that cannot be called,
    its \<^verbatim>\<open>valueOf\<close> (own or inherited) gives no primitive either, and the conversion
    raises a \<^verbatim>\<open>TypeError\<close>. Any other object converts to \<^verbatim>\<open>[object Object]\<close>,
    whatever it holds.
  \<^item> The conversion of an array joins the conversions of its elements, from left to
    right, one call level deeper; \<open>n\<close> is the number of nested levels the engine's
    stack still carries, and with none left the conversion raises a \<^verbatim>\<open>RangeError\<close>.
  \<^item> Every other value converts.
  \<open>ToString_exn n v\<close> is the exception the conversion of \<open>v\<close> raises, if any.
\<close>

fun ToString_exn :: "nat \<Rightarrow> jsval \<Rightarrow> exn option" where
  "ToString_exn n (JObj a kvs) =
     (if ''toString'' \<in> set (map fst kvs) then Some TypeError else None)"
| "ToString_exn n (JArr a vs) =
     (if n = 0 then Some RangeError else first_exn (map (ToString_exn (n - 1)) vs))"
| "ToString_exn n v = None"

text \<open>
  \<^verbatim>\<open>JSON.stringify\<close> descends into arrays and objects alike, one call level per
  level of nesting; \<open>depth\<close> is the nesting of a value.
\<close>

fun depth :: "jsval \<Rightarrow> nat" where
  "depth (JArr a vs) = Suc (foldr max (map depth vs) 0)"
| "depth (JObj a kvs) = Suc (foldr max (map (\<lambda>kv. depth (snd kv)) kvs) 0)"
| "depth v = 0"

section \<open>The server's state\<close>

text \<open>
  \<^verbatim>\<open>let currentRoom = null; let clientId = null;\<close> of each connection, and the
  registry. A \<^verbatim>\<open>Set\<close> of sockets is the list of its elements in insertion order,
  the order in which \<^verbatim>\<open>forEach\<close> visits them.
\<close>

record closure =
  currentRoom :: jsval
  clientId :: jsval

record server =
  rooms :: "jsval \<rightharpoonup> conn list"
  vars :: "conn \<Rightarrow> closure"

definition init :: server where
  "init = \<lparr>rooms = Map.empty, vars = (\<lambda>ws. \<lparr>currentRoom = JNull, clientId = JNull\<rparr>)\<rparr>"

definition members :: "server \<Rightarrow> jsval \<Rightarrow> conn list" where
  "members s room = (case rooms s room of None \<Rightarrow> [] | Some clients \<Rightarrow> clients)"

definition Set_add :: "conn \<Rightarrow> conn list \<Rightarrow> conn list" where
  "Set_add ws clients = (if ws \<in> set clients then clients else clients @ [ws])"

definition Set_delete :: "conn \<Rightarrow> conn list \<Rightarrow> conn list" where
  "Set_delete ws clients = removeAll ws clients"

text \<open>
  What a handler meets outside the server's own state, at the moment it runs:
  \<^item> each socket's \<^verbatim>\<open>readyState\<close> (\<^verbatim>\<open>CONNECTING\<close> is 0, \<^verbatim>\<open>OPEN\<close> is 1);
  \<^item> whether a text handed to \<^verbatim>\<open>send\<close> on a socket is lost on the way. The handler
    never learns of it: it passes no callback, and the transport reports the loss
    later, on that socket's own \<^verbatim>\<open>error\<close> event;
  \<^item> how many nested levels the engine's stack carries at this point for a
    conversion to a string and for \<^verbatim>\<open>JSON.stringify\<close>.
  The transport is the \<^verbatim>\<open>ws\<close> library, which is not part of the repository. Its
  \<^verbatim>\<open>send\<close> (versions 7 and 8) raises when the socket's \<^verbatim>\<open>readyState\<close> is
  \<^verbatim>\<open>CONNECTING\<close> and returns otherwise.
\<close>

record transport =
  readyState :: "conn \<Rightarrow> nat"
  send_fails :: "conn \<Rightarrow> bool"
  toString_levels :: nat
  stringify_levels :: nat

definition CONNECTING :: nat where
  "CONNECTING = 0"

definition OPEN :: nat where
  "OPEN = 1"

definition send_throws :: "transport \<Rightarrow> conn \<Rightarrow> bool" where
  "send_throws t client = (readyState t client = CONNECTING)"

type_synonym payload = "(string \<times> jsval) list"

text \<open>
  \<^verbatim>\<open>JSON.stringify(payload)\<close> raises a \<^verbatim>\<open>RangeError\<close> when a property of the object
  is nested deeper than the stack carries. (A property whose value is \<^verbatim>\<open>undefined\<close>
  is left out of the text.)
\<close>

definition stringify_throws :: "transport \<Rightarrow> payload \<Rightarrow> bool" where
  "stringify_throws t p = list_ex (\<lambda>kv. stringify_levels t < depth (snd kv)) p"

text \<open>
  Building a log line from \<^verbatim>\<open>clientId\<close> and \<^verbatim>\<open>currentRoom\<close>, in the order in which
  the template names them.
\<close>

definition log_line_exn :: "transport \<Rightarrow> jsval \<Rightarrow> jsval \<Rightarrow> exn option" where
  "log_line_exn t cid room =
     first_exn [ToString_exn (toString_levels t) cid, ToString_exn (toString_levels t) room]"

text \<open>
  What one run of the message handler did: the state it left, the calls of \<^verbatim>\<open>send\<close>
  that returned (socket and the object given to \<^verbatim>\<open>JSON.stringify\<close>, in order), and
  the exception that reached \<^verbatim>\<open>catch (error)\<close> and was written to \<^verbatim>\<open>console.error\<close>,
  if any.
\<close>

record outcome =
  after :: server
  sent :: "(conn \<times> payload) list"
  caught :: "exn option"

section \<open>The message handler\<close>

text \<open>
  \<^verbatim>\<open>clients.forEach((client) => { if (client !== ws && client.readyState === WebSocket.OPEN)
  client.send(JSON.stringify(payload)) })\<close>. There is no \<^verbatim>\<open>try\<close> inside the loop: an
  exception raised by \<^verbatim>\<open>JSON.stringify\<close> or by \<^verbatim>\<open>send\<close> ends it.
\<close>

fun forEach_send :: "transport \<Rightarrow> conn \<Rightarrow> payload \<Rightarrow> conn list \<Rightarrow> (conn \<times> payload) list \<times> exn option" where
  "forEach_send t ws p [] = ([], None)"
| "forEach_send t ws p (client # rest) =
     (if client \<noteq> ws \<and> readyState t client = OPEN then
        (if stringify_throws t p then ([], Some RangeError)
         else if send_throws t client then ([], Some SendError)
         else (case forEach_send t ws p rest of (out, e) \<Rightarrow> ((client, p) # out, e)))
      else forEach_send t ws p rest)"

text \<open>
  The five relay cases \<^verbatim>\<open>draw\<close>, \<^verbatim>\<open>strokeEnd\<close>, \<^verbatim>\<open>fill\<close>, \<^verbatim>\<open>clear\<close>, \<^verbatim>\<open>undo\<close> differ
  only in the object they build from \<^verbatim>\<open>data\<close>; \<open>relay_payload\<close> is that object
  (\<^verbatim>\<open>drawData\<close>, \<^verbatim>\<open>endData\<close>, \<^verbatim>\<open>fillData\<close>, \<^verbatim>\<open>clearData\<close>, \<^verbatim>\<open>undoData\<close>), and \<open>None\<close>
  for any other \<^verbatim>\<open>data.type\<close>.
\<close>

definition relay_payload :: "jsval \<Rightarrow> payload option" where
  "relay_payload data =
     (let ty = get_field data ''type'' in
      if ty = JStr ''draw'' then
        Some [(''type'', JStr ''draw''),
              (''x'', get_field data ''x''),
              (''y'', get_field data ''y''),
              (''prevX'', get_field data ''prevX''),
              (''prevY'', get_field data ''prevY''),
              (''color'', get_field data ''color''),
              (''lineWidth'', get_field data ''lineWidth''),
              (''drawerId'', get_field data ''drawerId'')]
      else if ty = JStr ''strokeEnd'' then
        Some [(''type'', JStr ''strokeEnd''),
              (''drawerId'', get_field data ''drawerId'')]
      else if ty = JStr ''fill'' then
        Some [(''type'', JStr ''fill''),
              (''x'', get_field data ''x''),
              (''y'', get_field data ''y''),
              (''color'', get_field data ''color''),
              (''drawerId'', get_field data ''drawerId'')]
      else if ty = JStr ''clear'' then
        Some [(''type'', JStr ''clear''),
              (''drawerId'', get_field data ''drawerId'')]
      else if ty = JStr ''undo'' then
        Some [(''type'', JStr ''undo''),
              (''drawerId'', get_field data ''drawerId'')]
      else None)"

text \<open>
  \<^verbatim>\<open>if (currentRoom && rooms.has(currentRoom)) { const clients = rooms.get(currentRoom);
  ...; clients.forEach(...) }\<close>
\<close>

definition broadcast :: "transport \<Rightarrow> conn \<Rightarrow> payload \<Rightarrow> server \<Rightarrow> outcome" where
  "broadcast t ws p s =
     (let room = currentRoom (vars s ws) in
      case (if truthy room then rooms s room else None) of
        None \<Rightarrow> \<lparr>after = s, sent = [], caught = None\<rparr>
      | Some clients \<Rightarrow>
          (case forEach_send t ws p clients of
             (out, e) \<Rightarrow> \<lparr>after = s, sent = out, caught = e\<rparr>))"

text \<open>
  \<^verbatim>\<open>case 'join'\<close>: the two variables are assigned, the room is created when the
  registry has none under that key, the socket is added, the log line is built
  (which may raise), and the confirmation \<^verbatim>\<open>{type: 'joined', roomId: currentRoom}\<close>
  is serialised and sent to the socket itself. Nothing removes the socket from a
  room it joined before.
\<close>

definition join :: "transport \<Rightarrow> conn \<Rightarrow> jsval \<Rightarrow> server \<Rightarrow> outcome" where
  "join t ws data s =
     (let room = get_field data ''roomId'';
          cid = get_field data ''clientId'';
          s1 = s\<lparr>vars := (vars s)(ws := \<lparr>currentRoom = room, clientId = cid\<rparr>)\<rparr>;
          s2 = (if rooms s1 room = None then s1\<lparr>rooms := (rooms s1)(room \<mapsto> [])\<rparr> else s1);
          s3 = s2\<lparr>rooms := (rooms s2)(room \<mapsto> Set_add ws (members s2 room))\<rparr>;
          joined = [(''type'', JStr ''joined''), (''roomId'', room)]
      in case log_line_exn t cid room of
           Some e \<Rightarrow> \<lparr>after = s3, sent = [], caught = Some e\<rparr>
         | None \<Rightarrow>
             if stringify_throws t joined then
               \<lparr>after = s3, sent = [], caught = Some RangeError\<rparr>
             else if send_throws t ws then
               \<lparr>after = s3, sent = [], caught = Some SendError\<rparr>
             else \<lparr>after = s3, sent = [(ws, joined)], caught = None\<rparr>)"

text \<open>
  \<^verbatim>\<open>case 'leave'\<close>: under the same guard as the relay cases the socket is deleted
  from the set of \<^verbatim>\<open>currentRoom\<close>, the log line is built (which may raise, and then
  the clean-up below it is skipped), and the room is deleted when its set is empty.
  \<^verbatim>\<open>currentRoom\<close> is not assigned.
\<close>

definition leave :: "transport \<Rightarrow> conn \<Rightarrow> server \<Rightarrow> outcome" where
  "leave t ws s =
     (let room = currentRoom (vars s ws);
          cid = clientId (vars s ws) in
      case (if truthy room then rooms s room else None) of
        None \<Rightarrow> \<lparr>after = s, sent = [], caught = None\<rparr>
      | Some clients \<Rightarrow>
          (let s1 = s\<lparr>rooms := (rooms s)(room \<mapsto> Set_delete ws clients)\<rparr> in
           case log_line_exn t cid room of
             Some e \<Rightarrow> \<lparr>after = s1, sent = [], caught = Some e\<rparr>
           | None \<Rightarrow>
               if length (members s1 room) = 0 then
                 \<lparr>after = s1\<lparr>rooms := (rooms s1)(room := None)\<rparr>, sent = [], caught = None\<rparr>
               else \<lparr>after = s1, sent = [], caught = None\<rparr>))"

text \<open>
  \<^verbatim>\<open>ws.on('message', ...)\<close>. The message is given by what \<^verbatim>\<open>JSON.parse\<close> makes of
  it: \<open>None\<close> when it raises a \<^verbatim>\<open>SyntaxError\<close>, the parsed value otherwise.
  \<^verbatim>\<open>data.type\<close> raises a \<^verbatim>\<open>TypeError\<close> when the value is \<^verbatim>\<open>null\<close>; the \<^verbatim>\<open>switch\<close>
  compares it with the seven names and has no \<^verbatim>\<open>default\<close>.
\<close>

definition on_message :: "transport \<Rightarrow> conn \<Rightarrow> jsval option \<Rightarrow> server \<Rightarrow> outcome" where
  "on_message t ws parsed s =
     (case parsed of
        None \<Rightarrow> \<lparr>after = s, sent = [], caught = Some SyntaxError\<rparr>
      | Some data \<Rightarrow>
          if data = JNull \<or> data = JUndefined then
            \<lparr>after = s, sent = [], caught = Some TypeError\<rparr>
          else if get_field data ''type'' = JStr ''join'' then join t ws data s
          else (case relay_payload data of
                  Some p \<Rightarrow> broadcast t ws p s
                | None \<Rightarrow>
                    if get_field data ''type'' = JStr ''leave'' then leave t ws s
                    else \<lparr>after = s, sent = [], caught = None\<rparr>))"

section \<open>The close handler\<close>

text \<open>
  \<^verbatim>\<open>ws.on('close', ...)\<close> does what \<^verbatim>\<open>leave\<close> does, outside any \<^verbatim>\<open>try\<close>: an exception
  raised while the log line is built is not caught by the server (\<open>Inl\<close>), and the
  process ends.
\<close>

definition on_close :: "transport \<Rightarrow> conn \<Rightarrow> server \<Rightarrow> exn + server" where
  "on_close t ws s =
     (let room = currentRoom (vars s ws);
          cid = clientId (vars s ws) in
      case (if truthy room then rooms s room else None) of
        None \<Rightarrow> Inr s
      | Some clients \<Rightarrow>
          (let s1 = s\<lparr>rooms := (rooms s)(room \<mapsto> Set_delete ws clients)\<rparr> in
           case log_line_exn t cid room of
             Some e \<Rightarrow> Inl e
           | None \<Rightarrow>
               if length (members s1 room) = 0 then
                 Inr (s1\<lparr>rooms := (rooms s1)(room := None)\<rparr>)
               else Inr s1))"

section \<open>Reachable states\<close>

text \<open>
  The server starts with an empty registry; every connection's variables are
  \<^verbatim>\<open>null\<close> until its first \<^verbatim>\<open>join\<close>. Messages and closes are handled one at a time.
  \<open>reachable_by ok\<close> are the states reached when every parsed message \<open>data\<close> that a
  socket \<open>ws\<close> sends in a state \<open>s\<close> satisfies \<open>ok s ws data\<close>; \<open>reachable\<close> puts no
  condition on the messages.
\<close>

inductive reachable_by :: "(server \<Rightarrow> conn \<Rightarrow> jsval \<Rightarrow> bool) \<Rightarrow> server \<Rightarrow> bool"
  for ok :: "server \<Rightarrow> conn \<Rightarrow> jsval \<Rightarrow> bool" where
  start: "reachable_by ok init"
| malformed: "reachable_by ok s \<Longrightarrow> reachable_by ok (after (on_message t ws None s))"
| message: "reachable_by ok s \<Longrightarrow> ok s ws data \<Longrightarrow>
            reachable_by ok (after (on_message t ws (Some data) s))"
| closed: "reachable_by ok s \<Longrightarrow> on_close t ws s = Inr s' \<Longrightarrow> reachable_by ok s'"

definition reachable :: "server \<Rightarrow> bool" where
  "reachable s = reachable_by (\<lambda>s ws data. True) s"

section \<open>Notions used in the statements\<close>

text \<open>
  The sockets a fan-out from \<open>ws\<close> addresses among \<open>clients\<close>: every one but \<open>ws\<close>
  whose \<^verbatim>\<open>readyState\<close> is \<^verbatim>\<open>OPEN\<close>, in the order of the set. Of the calls of
  \<^verbatim>\<open>send\<close> that were made, \<open>delivered\<close> are those whose text was not lost.
\<close>

definition recipients :: "transport \<Rightarrow> conn \<Rightarrow> conn list \<Rightarrow> conn list" where
  "recipients t ws clients = filter (\<lambda>c. c \<noteq> ws \<and> readyState t c = OPEN) clients"

definition delivered :: "transport \<Rightarrow> (conn \<times> payload) list \<Rightarrow> (conn \<times> payload) list" where
  "delivered t out = filter (\<lambda>cp. \<not> send_fails t (fst cp)) out"

text \<open>
  The relay types, and the fields that the specification's table of message types
  (its section 4.3) lists for each of them; \<open>spec_fields\<close> follows that table, not
  the code, and is compared with \<open>relay_payload\<close> below.
\<close>

definition relay_types :: "string list" where
  "relay_types = [''draw'', ''strokeEnd'', ''fill'', ''clear'', ''undo'']"

definition spec_fields :: "string \<Rightarrow> string list" where
  "spec_fields ty =
     (if ty = ''draw'' then [''x'', ''y'', ''prevX'', ''prevY'', ''color'', ''lineWidth'', ''drawerId'']
      else if ty = ''strokeEnd'' then [''drawerId'']
      else if ty = ''fill'' then [''x'', ''y'', ''color'', ''drawerId'']
      else if ty = ''clear'' then [''drawerId'']
      else if ty = ''undo'' then [''drawerId'']
      else [])"

text \<open>
  A message is \<open>loggable\<close> when, if it is a \<^verbatim>\<open>join\<close>, its \<^verbatim>\<open>roomId\<close> and \<^verbatim>\<open>clientId\<close>
  convert to strings with no call level to spare, so that no log line built from
  them raises, in whatever handler and at whatever stack depth it is built. Every
  string, number, boolean, \<^verbatim>\<open>null\<close> and absent value does, and so does an object
  with no own \<^verbatim>\<open>toString\<close>; an array does not.
\<close>

definition loggable :: "server \<Rightarrow> conn \<Rightarrow> jsval \<Rightarrow> bool" where
  "loggable s ws data =
     (if get_field data ''type'' = JStr ''join''
      then ToString_exn 0 (get_field data ''roomId'') = None
           \<and> ToString_exn 0 (get_field data ''clientId'') = None
      else True)"

text \<open>
  No socket is in the sets of two rooms; and the discipline under which that is
  kept: a \<^verbatim>\<open>join\<close> arrives only from a socket that is in no room other than the one
  the message names.
\<close>

definition single_room :: "server \<Rightarrow> bool" where
  "single_room s =
     (\<forall>c r1 r2. c \<in> set (members s r1) \<and> c \<in> set (members s r2) \<longrightarrow> r1 = r2)"

definition no_second_room :: "server \<Rightarrow> conn \<Rightarrow> jsval \<Rightarrow> bool" where
  "no_second_room s ws data =
     (if get_field data ''type'' = JStr ''join''
      then \<forall>room. ws \<in> set (members s room) \<longrightarrow> room = get_field data ''roomId''
      else True)"

section \<open>Scenarios\<close>

text \<open>
  Concrete messages and states: a transport on which every socket is open and
  nothing is lost, under an engine whose stack carries 5000 nested levels; the
  messages of the specification's scenarios; the state after a socket sent a
  message over that transport; and the state after sockets 0 and 1 joined the same
  room as \<^verbatim>\<open>c1\<close> and \<^verbatim>\<open>c2\<close>.
\<close>

definition link :: transport where
  "link = \<lparr>readyState = (\<lambda>c. OPEN), send_fails = (\<lambda>c. False),
           toString_levels = 5000, stringify_levels = 5000\<rparr>"

definition join_msg :: "jsval \<Rightarrow> jsval \<Rightarrow> jsval" where
  "join_msg room cid = JObj 0 [(''type'', JStr ''join''), (''roomId'', room), (''clientId'', cid)]"

definition leave_msg :: jsval where
  "leave_msg = JObj 0 [(''type'', JStr ''leave'')]"

definition draw_msg :: jsval where
  "draw_msg = JObj 0 [(''type'', JStr ''draw''), (''x'', JNum 10), (''y'', JNum 20),
     (''prevX'', JNum 5), (''prevY'', JNum 15), (''color'', JStr ''#000000''),
     (''lineWidth'', JNum 2), (''drawerId'', JStr ''c1'')]"

definition draw_payload :: payload where
  "draw_payload = [(''type'', JStr ''draw''), (''x'', JNum 10), (''y'', JNum 20),
     (''prevX'', JNum 5), (''prevY'', JNum 15), (''color'', JStr ''#000000''),
     (''lineWidth'', JNum 2), (''drawerId'', JStr ''c1'')]"

definition said :: "conn \<Rightarrow> jsval \<Rightarrow> server \<Rightarrow> server" where
  "said ws data s = after (on_message link ws (Some data) s)"

definition room_of_two :: "string \<Rightarrow> server" where
  "room_of_two r =
     said 1 (join_msg (JStr r) (JStr ''c2'')) (said 0 (join_msg (JStr r) (JStr ''c1'')) init)"

definition room_of_three :: server where
  "room_of_three = said 2 (join_msg (JStr ''R1'') (JStr ''c3'')) (room_of_two ''R1'')"

definition two_rooms :: server where
  "two_rooms = said 2 (join_msg (JStr ''R2'') (JStr ''c3'')) (room_of_two ''R1'')"

definition alone_in :: "string \<Rightarrow> server" where
  "alone_in r = said 0 (join_msg (JStr r) (JStr ''c1'')) init"

definition moved_on :: server where
  "moved_on = said 0 (join_msg (JStr ''R2'') (JStr ''c1'')) (alone_in ''R1'')"

definition after_leave :: server where
  "after_leave = said 0 leave_msg (room_of_two ''R1'')"

text \<open>
  Socket 0 joined \<^verbatim>\<open>R1\<close> and then \<^verbatim>\<open>R2\<close> without leaving, and socket 1 joined
  \<^verbatim>\<open>R1\<close> after that.
\<close>

definition lingering :: server where
  "lingering = said 1 (join_msg (JStr ''R1'') (JStr ''c2'')) moved_on"

text \<open>The transport \<open>link\<close>, except that what is sent to socket \<open>c\<close> is lost.\<close>

definition lossy :: "conn \<Rightarrow> transport" where
  "lossy c = link\<lparr>send_fails := (\<lambda>x. x = c)\<rparr>"

text \<open>
  A \<^verbatim>\<open>draw\<close> with no \<^verbatim>\<open>color\<close> and with a field the server does not read; a value
  nested \<open>n\<close> arrays deep, and a \<^verbatim>\<open>draw\<close> with no \<^verbatim>\<open>color\<close> whose \<^verbatim>\<open>drawerId\<close> is nested 9999
  deep; and
  a \<^verbatim>\<open>join\<close> with no \<^verbatim>\<open>roomId\<close> whose \<^verbatim>\<open>clientId\<close> is the object \<^verbatim>\<open>{"toString": 0}\<close>.
\<close>

definition sparse_draw_msg :: jsval where
  "sparse_draw_msg = JObj 0 [(''type'', JStr ''draw''), (''x'', JNum 1), (''pressure'', JNum 7)]"

definition sparse_draw_payload :: payload where
  "sparse_draw_payload =
     [(''type'', JStr ''draw''), (''x'', JNum 1), (''y'', JUndefined),
      (''prevX'', JUndefined), (''prevY'', JUndefined), (''color'', JUndefined),
      (''lineWidth'', JUndefined), (''drawerId'', JUndefined)]"

primrec nest :: "nat \<Rightarrow> jsval \<Rightarrow> jsval" where
  "nest 0 v = v"
| "nest (Suc n) v = JArr 0 [nest n v]"

definition deep_draw_msg :: jsval where
  "deep_draw_msg =
     JObj 0 [(''type'', JStr ''draw''), (''x'', JNum 1), (''drawerId'', nest 9999 JNull)]"

definition deep_draw_payload :: payload where
  "deep_draw_payload =
     [(''type'', JStr ''draw''), (''x'', JNum 1), (''y'', JUndefined),
      (''prevX'', JUndefined), (''prevY'', JUndefined), (''color'', JUndefined),
      (''lineWidth'', JUndefined), (''drawerId'', nest 9999 JNull)]"

definition odd_join_msg :: jsval where
  "odd_join_msg = JObj 0 [(''type'', JStr ''join''), (''clientId'', JObj 1 [(''toString'', JNum 0)])]"

text \<open>Socket 0 alone in room \<open>r\<close>, having joined with the \<^verbatim>\<open>clientId\<close> \<^verbatim>\<open>{"toString": 0}\<close>.\<close>

definition odd_client_in :: "string \<Rightarrow> server" where
  "odd_client_in r = said 0 (join_msg (JStr r) (JObj 1 [(''toString'', JNum 0)])) init"

section \<open>Basic facts about the handlers\<close>

lemma open_not_connecting: "readyState t c = OPEN \<Longrightarrow> \<not> send_throws t c"
  by (simp add: send_throws_def OPEN_def CONNECTING_def)

lemma forEach_send_eq:
  "forEach_send t ws p clients =
     (if recipients t ws clients = [] then ([], None)
      else if stringify_throws t p then ([], Some RangeError)
      else (map (\<lambda>c. (c, p)) (recipients t ws clients), None))"
  by (induction clients) (auto simp: recipients_def open_not_connecting)

lemma relay_payload_not_join:
  "relay_payload data = Some p \<Longrightarrow> get_field data ''type'' \<noteq> JStr ''join''"
  by (auto simp: relay_payload_def Let_def split: if_splits)

lemma relay_payload_not_null:
  "relay_payload data = Some p \<Longrightarrow> data \<noteq> JNull \<and> data \<noteq> JUndefined"
  by (auto simp: relay_payload_def Let_def split: if_splits)

lemma on_message_relay:
  "relay_payload data = Some p \<Longrightarrow> on_message t ws (Some data) s = broadcast t ws p s"
  using relay_payload_not_join [of data p] relay_payload_not_null [of data p]
  by (simp add: on_message_def)

lemma broadcast_joined:
  "truthy (currentRoom (vars s ws)) \<Longrightarrow> rooms s (currentRoom (vars s ws)) = Some clients \<Longrightarrow>
   broadcast t ws p s =
     \<lparr>after = s,
      sent = (if stringify_throws t p then [] else map (\<lambda>c. (c, p)) (recipients t ws clients)),
      caught = (if stringify_throws t p \<and> recipients t ws clients \<noteq> []
                then Some RangeError else None)\<rparr>"
  by (simp add: broadcast_def forEach_send_eq)

lemma broadcast_unjoined:
  "\<not> truthy (currentRoom (vars s ws)) \<Longrightarrow> broadcast t ws p s = \<lparr>after = s, sent = [], caught = None\<rparr>"
  by (simp add: broadcast_def)

lemma broadcast_after: "after (broadcast t ws p s) = s"
  by (simp add: broadcast_def Let_def split: option.splits prod.splits)

lemma broadcast_sent_subset:
  "set (map fst (sent (broadcast t ws p s))) \<subseteq> set (members s (currentRoom (vars s ws))) - {ws}"
  by (auto simp: broadcast_def Let_def forEach_send_eq members_def recipients_def
           split: option.splits if_splits)

lemma broadcast_sent_all:
  assumes "(c, q) \<in> set (sent (broadcast t ws p s))"
  shows "broadcast t ws p s =
           \<lparr>after = s,
            sent = map (\<lambda>c. (c, p)) (recipients t ws (members s (currentRoom (vars s ws)))),
            caught = None\<rparr>"
  using assms
  by (auto simp: broadcast_def Let_def forEach_send_eq members_def
           split: option.splits if_splits)

lemma join_after:
  "after (join t ws data s) =
     s\<lparr>vars := (vars s)(ws := \<lparr>currentRoom = get_field data ''roomId'', clientId = get_field data ''clientId''\<rparr>),
       rooms := (rooms s)(get_field data ''roomId'' \<mapsto> Set_add ws (members s (get_field data ''roomId'')))\<rparr>"
  by (simp add: join_def Let_def members_def split: option.splits)

lemma members_join:
  "members (after (join t ws data s)) room =
     (if room = get_field data ''roomId'' then Set_add ws (members s room) else members s room)"
  by (simp add: join_after members_def)

lemma leave_after:
  "after (leave t ws s) =
     (let room = currentRoom (vars s ws) in
      case (if truthy room then rooms s room else None) of
        None \<Rightarrow> s
      | Some clients \<Rightarrow>
          if log_line_exn t (clientId (vars s ws)) room \<noteq> None \<or> removeAll ws clients \<noteq> []
          then s\<lparr>rooms := (rooms s)(room \<mapsto> removeAll ws clients)\<rparr>
          else s\<lparr>rooms := (rooms s)(room := None)\<rparr>)"
  by (auto simp: leave_def Let_def members_def Set_delete_def split: option.splits)

lemma on_close_Inr:
  "on_close t ws s = Inr s' \<Longrightarrow>
     s' = (let room = currentRoom (vars s ws) in
      case (if truthy room then rooms s room else None) of
        None \<Rightarrow> s
      | Some clients \<Rightarrow>
          if removeAll ws clients \<noteq> []
          then s\<lparr>rooms := (rooms s)(room \<mapsto> removeAll ws clients)\<rparr>
          else s\<lparr>rooms := (rooms s)(room := None)\<rparr>)"
  by (auto simp: on_close_def Let_def members_def Set_delete_def split: option.splits if_splits)

lemma on_close_loggable:
  "log_line_exn t (clientId (vars s ws)) (currentRoom (vars s ws)) = None \<Longrightarrow>
   on_close t ws s = Inr (after (leave t ws s))"
  by (auto simp: on_close_def leave_def Let_def split: option.splits)

lemma on_message_cases:
  "after (on_message t ws parsed s) = s
   \<or> (\<exists>data. parsed = Some data \<and> get_field data ''type'' = JStr ''join'' \<and> after (on_message t ws parsed s) = after (join t ws data s))
   \<or> (\<exists>data. parsed = Some data \<and> get_field data ''type'' = JStr ''leave'' \<and> after (on_message t ws parsed s) = after (leave t ws s))"
  by (auto simp: on_message_def broadcast_after split: option.splits)

lemma members_leave:
  "members (after (leave t ws s)) room =
     (if room = currentRoom (vars s ws) \<and> truthy room then removeAll ws (members s room) else members s room)"
  by (auto simp: leave_after Let_def members_def split: option.splits)

lemma vars_leave: "vars (after (leave t ws s)) = vars s"
  by (auto simp: leave_after Let_def split: option.splits)

lemma members_close:
  "on_close t ws s = Inr s' \<Longrightarrow>
   members s' room =
     (if room = currentRoom (vars s ws) \<and> truthy room then removeAll ws (members s room) else members s room)"
  by (drule on_close_Inr) (auto simp: Let_def members_def split: option.splits)

lemma vars_close: "on_close t ws s = Inr s' \<Longrightarrow> vars s' = vars s"
  by (drule on_close_Inr) (auto simp: Let_def split: option.splits)

lemma reachable_by_steps [consumes 1, case_names start join leave close]:
  assumes "reachable_by ok s"
    and "P init"
    and "\<And>s t ws data. reachable_by ok s \<Longrightarrow> P s \<Longrightarrow> ok s ws data \<Longrightarrow>
           get_field data ''type'' = JStr ''join'' \<Longrightarrow> P (after (join t ws data s))"
    and "\<And>s t ws data. reachable_by ok s \<Longrightarrow> P s \<Longrightarrow> ok s ws data \<Longrightarrow>
           get_field data ''type'' = JStr ''leave'' \<Longrightarrow> P (after (leave t ws s))"
    and "\<And>s t ws s'. reachable_by ok s \<Longrightarrow> P s \<Longrightarrow> on_close t ws s = Inr s' \<Longrightarrow> P s'"
  shows "P s"
  using assms(1)
proof (induction rule: reachable_by.induct)
  case start
  show ?case by (rule assms(2))
next
  case (malformed s t ws)
  then show ?case by (simp add: on_message_def)
next
  case (message s ws data t)
  from on_message_cases [of t ws "Some data" s] message assms(3,4)
  show ?case by auto
next
  case (closed s t ws s')
  then show ?case using assms(5) by blast
qed

lemma distinct_Set_add: "distinct clients \<Longrightarrow> distinct (Set_add ws clients)"
  by (simp add: Set_add_def)

lemma reachable_by_distinct:
  "reachable_by ok s \<Longrightarrow> distinct (members s room)"
proof (induction arbitrary: room rule: reachable_by_steps)
  case start
  show ?case by (simp add: init_def members_def)
next
  case (join s t ws data)
  then show ?case by (simp add: members_join distinct_Set_add)
next
  case (leave s t ws data)
  then show ?case by (simp add: members_leave distinct_removeAll)
next
  case (close s t ws s')
  then show ?case by (simp add: members_close distinct_removeAll)
qed

lemma ToString_exn_spare: "ToString_exn 0 v = None \<Longrightarrow> ToString_exn n v = None"
  by (cases v) (simp_all split: if_splits)

lemma log_line_exn_spare:
  "ToString_exn 0 cid = None \<Longrightarrow> ToString_exn 0 room = None \<Longrightarrow> log_line_exn t cid room = None"
  by (simp add: log_line_exn_def ToString_exn_spare)

lemma reachable_by_loggable_vars:
  "reachable_by loggable s \<Longrightarrow>
   ToString_exn 0 (currentRoom (vars s c)) = None \<and> ToString_exn 0 (clientId (vars s c)) = None"
proof (induction arbitrary: c rule: reachable_by_steps)
  case start
  show ?case by (simp add: init_def)
next
  case (join s t ws data)
  then show ?case by (simp add: join_after loggable_def)
next
  case (leave s t ws data)
  then show ?case by (simp add: vars_leave)
next
  case (close s t ws s')
  then show ?case by (simp add: vars_close)
qed

lemma reachable_by_loggable_log_line:
  "reachable_by loggable s \<Longrightarrow>
   log_line_exn t (clientId (vars s ws)) (currentRoom (vars s ws)) = None"
  using reachable_by_loggable_vars [of s ws] by (simp add: log_line_exn_spare)

lemma rooms_leave_loggable:
  "log_line_exn t (clientId (vars s ws)) (currentRoom (vars s ws)) = None \<Longrightarrow>
   rooms (after (leave t ws s)) room \<noteq> Some [] \<or> rooms s room = Some []"
  by (auto simp: leave_after Let_def split: option.splits if_splits)

lemma reachable_by_loggable_nonempty:
  "reachable_by loggable s \<Longrightarrow> rooms s room \<noteq> Some []"
proof (induction arbitrary: room rule: reachable_by_steps)
  case start
  show ?case by (simp add: init_def)
next
  case (join s t ws data)
  then show ?case by (auto simp: join_after Set_add_def)
next
  case (leave s t ws data)
  have ih: "rooms s room \<noteq> Some []" using leave by blast
  have "reachable_by loggable s" using leave by blast
  from reachable_by_loggable_log_line [OF this, of t ws] ih rooms_leave_loggable [of t s ws room]
  show ?case by blast
next
  case (close s t ws s')
  have ih: "rooms s room \<noteq> Some []" using close by blast
  have r: "reachable_by loggable s" using close by blast
  have c: "on_close t ws s = Inr s'" using close by blast
  from reachable_by_loggable_log_line [OF r, of t ws]
  have l: "log_line_exn t (clientId (vars s ws)) (currentRoom (vars s ws)) = None" .
  then have "on_close t ws s = Inr (after (leave t ws s))" by (rule on_close_loggable)
  with c have "s' = after (leave t ws s)" by simp
  with l ih rooms_leave_loggable [of t s ws room]
  show ?case by blast
qed

lemma join_member_cases:
  "c \<in> set (members (after (join t ws data s)) r) \<Longrightarrow>
   (c = ws \<and> r = get_field data ''roomId'') \<or> c \<in> set (members s r)"
  by (simp add: members_join Set_add_def split: if_splits)

lemma members_leave_subset:
  "set (members (after (leave t ws s)) room) \<subseteq> set (members s room)"
  by (simp add: members_leave)

lemma members_close_subset:
  "on_close t ws s = Inr s' \<Longrightarrow> set (members s' room) \<subseteq> set (members s room)"
  by (simp add: members_close)

lemma single_room_join:
  assumes "single_room s" and "\<forall>room. ws \<in> set (members s room) \<longrightarrow> room = get_field data ''roomId''"
  shows "single_room (after (join t ws data s))"
  unfolding single_room_def
proof (intro allI impI)
  fix c r1 r2
  assume m: "c \<in> set (members (after (join t ws data s)) r1) \<and> c \<in> set (members (after (join t ws data s)) r2)"
  from m join_member_cases [of c t ws data s r1]
  have a: "(c = ws \<and> r1 = get_field data ''roomId'') \<or> c \<in> set (members s r1)" by blast
  from m join_member_cases [of c t ws data s r2]
  have b: "(c = ws \<and> r2 = get_field data ''roomId'') \<or> c \<in> set (members s r2)" by blast
  from a b assms show "r1 = r2" unfolding single_room_def by metis
qed

lemma single_room_shrink:
  assumes "single_room s" and "\<And>room. set (members s' room) \<subseteq> set (members s room)"
  shows "single_room s'"
  using assms unfolding single_room_def by blast

lemma single_room_kept:
  assumes "reachable_by no_second_room s"
  shows "single_room s"
  using assms
proof (induction rule: reachable_by_steps)
  case start
  show ?case by (simp add: single_room_def init_def members_def)
next
  case (join s t ws data)
  then show ?case by (simp add: single_room_join no_second_room_def)
next
  case (leave s t ws data)
  then have "single_room s" by blast
  then show ?case by (rule single_room_shrink) (rule members_leave_subset)
next
  case (close s t ws s')
  then have sr: "single_room s" and cl: "on_close t ws s = Inr s'" by blast+
  from sr show ?case by (rule single_room_shrink) (rule members_close_subset [OF cl])
qed

lemma depth_nest: "depth (nest n v) = n + depth v"
  by (induction n) simp_all

lemma plain_log_line [simp]: "log_line_exn t (JStr a) (JStr b) = None"
  by (simp add: log_line_exn_def)

lemma said_join:
  "said ws (join_msg room cid) s =
     s\<lparr>vars := (vars s)(ws := \<lparr>currentRoom = room, clientId = cid\<rparr>),
       rooms := (rooms s)(room \<mapsto> Set_add ws (members s room))\<rparr>"
  by (simp add: said_def on_message_def join_msg_def join_after)

lemma relay_draw_msg: "relay_payload draw_msg = Some draw_payload"
  by (simp add: relay_payload_def draw_msg_def draw_payload_def)

lemma stringify_draw_payload: "\<not> stringify_throws t draw_payload"
  by (simp add: stringify_throws_def draw_payload_def)

lemma relay_sparse_draw_msg: "relay_payload sparse_draw_msg = Some sparse_draw_payload"
  by (simp add: relay_payload_def sparse_draw_msg_def sparse_draw_payload_def)

lemma stringify_sparse_draw_payload: "\<not> stringify_throws t sparse_draw_payload"
  by (simp add: stringify_throws_def sparse_draw_payload_def)

lemma room_of_two_rooms: "rooms (room_of_two r) (JStr r) = Some [0, 1]"
  by (simp add: room_of_two_def said_join members_def Set_add_def init_def)

lemma room_of_two_vars: "currentRoom (vars (room_of_two r) 0) = JStr r"
  by (simp add: room_of_two_def said_join init_def)

lemma room_of_two_closure:
  "vars (room_of_two r) 0 = \<lparr>currentRoom = JStr r, clientId = JStr ''c1''\<rparr>"
  by (simp add: room_of_two_def said_join init_def)

lemma reachable_said: "reachable s \<Longrightarrow> reachable (said ws data s)"
  unfolding reachable_def said_def by (rule reachable_by.message) simp_all

lemma reachable_init: "reachable init"
  unfolding reachable_def by (rule reachable_by.start)

lemma reachable_room_of_two: "reachable (room_of_two r)"
  unfolding room_of_two_def by (intro reachable_said reachable_init)

lemma reachable_by_said:
  "reachable_by ok s \<Longrightarrow> ok s ws data \<Longrightarrow> reachable_by ok (said ws data s)"
  unfolding said_def by (rule reachable_by.message)

lemma on_message_leave:
  "get_field data ''type'' = JStr ''leave'' \<Longrightarrow> on_message t ws (Some data) s = leave t ws s"
  by (auto simp: on_message_def relay_payload_def)

lemma said_leave: "said ws leave_msg s = after (leave link ws s)"
  by (simp add: said_def leave_msg_def on_message_leave)

lemma rooms_leave_current:
  assumes "log_line_exn t (clientId (vars s ws)) (currentRoom (vars s ws)) = None"
    and "truthy (currentRoom (vars s ws))"
  shows "(rooms (after (leave t ws s)) (currentRoom (vars s ws)) = None)
           = (removeAll ws (members s (currentRoom (vars s ws))) = [])"
  using assms by (auto simp: leave_after Let_def members_def split: option.splits)

lemma own_property_absent: "k \<notin> set (map fst p) \<Longrightarrow> own_property p k = JUndefined"
  by (induction p) auto

lemma alone_in_rooms: "rooms (alone_in r) (JStr r) = Some [0]"
  by (simp add: alone_in_def said_join members_def Set_add_def init_def)

lemma alone_in_vars: "vars (alone_in r) 0 = \<lparr>currentRoom = JStr r, clientId = JStr ''c1''\<rparr>"
  by (simp add: alone_in_def said_join init_def)

lemma alone_in_members: "members (alone_in r) room = (if room = JStr r then [0] else [])"
  by (simp add: alone_in_def said_join members_def Set_add_def init_def)

lemma reachable_alone_in: "reachable (alone_in r)"
  unfolding alone_in_def by (intro reachable_said reachable_init)

lemma room_of_three_rooms: "rooms room_of_three (JStr ''R1'') = Some [0, 1, 2]"
  by (simp add: room_of_three_def said_join members_def Set_add_def room_of_two_rooms)

lemma room_of_three_vars: "currentRoom (vars room_of_three 0) = JStr ''R1''"
  by (simp add: room_of_three_def said_join room_of_two_vars)

lemma two_rooms_rooms:
  "rooms two_rooms (JStr ''R1'') = Some [0, 1] \<and> rooms two_rooms (JStr ''R2'') = Some [2]"
  by (simp add: two_rooms_def said_join members_def Set_add_def room_of_two_rooms
      room_of_two_def init_def)

lemma two_rooms_vars: "currentRoom (vars two_rooms 0) = JStr ''R1''"
  by (simp add: two_rooms_def said_join room_of_two_vars)

lemma moved_on_members:
  "members moved_on room = (if room = JStr ''R1'' \<or> room = JStr ''R2'' then [0] else [])"
  by (simp add: moved_on_def said_join members_def Set_add_def alone_in_def init_def)

lemma moved_on_vars: "currentRoom (vars moved_on 0) = JStr ''R2''"
  by (simp add: moved_on_def said_join)

lemma reachable_moved_on: "reachable moved_on"
  unfolding moved_on_def by (intro reachable_said reachable_alone_in)

lemma members_said_join:
  "members (said ws (join_msg room cid) s) r =
     (if r = room then Set_add ws (members s r) else members s r)"
  by (simp add: said_join members_def)

lemma lingering_members:
  "members lingering (JStr ''R1'') = [0, 1] \<and> members lingering (JStr ''R2'') = [0]"
  by (simp add: lingering_def members_said_join moved_on_members Set_add_def)

lemma lingering_vars:
  "currentRoom (vars lingering 0) = JStr ''R2'' \<and> currentRoom (vars lingering 1) = JStr ''R1''"
  by (simp add: lingering_def said_join moved_on_vars)

lemma lingering_rooms: "rooms lingering (JStr ''R1'') = Some [0, 1]"
  by (simp add: lingering_def said_join moved_on_members Set_add_def)

lemma reachable_lingering: "reachable lingering"
  unfolding lingering_def by (intro reachable_said reachable_moved_on)

lemma members_init: "members init room = []"
  by (simp add: members_def init_def)

lemma room_of_two_members:
  "members (room_of_two r) room = (if room = JStr r then [0, 1] else [])"
  by (simp add: room_of_two_def members_said_join Set_add_def members_init)

lemma two_rooms_disciplined: "reachable_by no_second_room two_rooms"
proof -
  have a: "reachable_by no_second_room (alone_in ''R1'')"
    unfolding alone_in_def
    by (rule reachable_by_said [OF reachable_by.start])
       (simp add: no_second_room_def members_def init_def)
  have "no_second_room (alone_in ''R1'') 1 (join_msg (JStr ''R1'') (JStr ''c2''))"
    by (simp add: no_second_room_def join_msg_def alone_in_members)
  with a have b: "reachable_by no_second_room (room_of_two ''R1'')"
    unfolding room_of_two_def alone_in_def by (rule reachable_by_said)
  have "no_second_room (room_of_two ''R1'') 2 (join_msg (JStr ''R2'') (JStr ''c3''))"
    by (simp add: no_second_room_def join_msg_def room_of_two_members)
  with b show ?thesis
    unfolding two_rooms_def by (rule reachable_by_said)
qed

lemma relay_deep_draw_msg: "relay_payload deep_draw_msg = Some deep_draw_payload"
  by (simp add: relay_payload_def deep_draw_msg_def deep_draw_payload_def)

lemma stringify_deep_draw_payload: "stringify_throws link deep_draw_payload"
  by (simp add: stringify_throws_def deep_draw_payload_def depth_nest link_def)

lemma recipients_link: "recipients link ws clients = removeAll ws clients"
  by (induction clients) (auto simp: recipients_def link_def)

section \<open>Fan-out of relay messages\<close>

text \<open>
  What a relay does where its guard lets it through: in every reachable state, a
  relay message from a socket whose \<^verbatim>\<open>currentRoom\<close> is truthy and is a key of the
  registry, with an object that \<^verbatim>\<open>JSON.stringify\<close> can serialise, is sent to every
  member of that room other than the sender whose \<^verbatim>\<open>readyState\<close> is \<^verbatim>\<open>OPEN\<close>: once
  to each, never to the sender, with no error and no change of state.
\<close>

lemma relay_fanout:
  assumes "reachable s"
    and "relay_payload data = Some p"
    and "truthy (currentRoom (vars s ws))"
    and "rooms s (currentRoom (vars s ws)) = Some clients"
    and "\<not> stringify_throws t p"
  shows "sent (on_message t ws (Some data) s) = map (\<lambda>c. (c, p)) (recipients t ws clients)
     \<and> distinct (map fst (sent (on_message t ws (Some data) s)))
     \<and> ws \<notin> set (map fst (sent (on_message t ws (Some data) s)))
     \<and> caught (on_message t ws (Some data) s) = None
     \<and> after (on_message t ws (Some data) s) = s"
proof -
  have d: "distinct clients"
    using reachable_by_distinct [of "\<lambda>s ws data. True" s "currentRoom (vars s ws)"] assms(1,4)
    by (simp add: reachable_def members_def)
  have eq: "on_message t ws (Some data) s =
      \<lparr>after = s, sent = map (\<lambda>c. (c, p)) (recipients t ws clients), caught = None\<rparr>"
    using assms(5) by (simp add: on_message_relay [OF assms(2)] broadcast_joined [OF assms(3,4)])
  have fst: "map fst (map (\<lambda>c. (c, p)) (recipients t ws clients)) = recipients t ws clients"
    by (simp add: comp_def)
  from d have "distinct (recipients t ws clients)" by (simp add: recipients_def)
  moreover have "ws \<notin> set (recipients t ws clients)" by (simp add: recipients_def)
  ultimately show ?thesis using eq fst by simp
qed

text \<open>
  The first scenario of the specification: sockets 0 and 1 joined \<^verbatim>\<open>R1\<close>; the \<^verbatim>\<open>draw\<close>
  of socket 0 goes to socket 1 and to nobody else.
\<close>

lemma first_scenario:
  "sent (on_message link 0 (Some draw_msg) (room_of_two ''R1'')) = [(1, draw_payload)]
   \<and> caught (on_message link 0 (Some draw_msg) (room_of_two ''R1'')) = None"
proof -
  have h3: "truthy (currentRoom (vars (room_of_two ''R1'') 0))"
    by (simp add: room_of_two_vars)
  have h4: "rooms (room_of_two ''R1'') (currentRoom (vars (room_of_two ''R1'') 0)) = Some [0, 1]"
    by (simp add: room_of_two_vars room_of_two_rooms)
  from relay_fanout [OF reachable_room_of_two relay_draw_msg h3 h4 stringify_draw_payload, of link]
  show ?thesis by (simp add: recipients_link)
qed

text \<open>
  C1. A relay message from a socket whose \<^verbatim>\<open>currentRoom\<close> is a room of the registry
  should be sent to every other member of that room whose \<^verbatim>\<open>readyState\<close> is \<^verbatim>\<open>OPEN\<close>.
  The guard of the relay cases is a truth test of \<^verbatim>\<open>currentRoom\<close>: sockets 0 and 1
  joined the room whose identifier is the empty string, were registered in it and
  got their confirmation, and the \<^verbatim>\<open>draw\<close> of socket 0 reaches nobody.
\<close>

theorem relay_in_room_named_by_empty_string:
  "sent (on_message link 1 (Some (join_msg (JStr '''') (JStr ''c2''))) (alone_in ''''))
     = [(1, [(''type'', JStr ''joined''), (''roomId'', JStr '''')])]
   \<and> after (on_message link 1 (Some (join_msg (JStr '''') (JStr ''c2''))) (alone_in ''''))
     = room_of_two ''''
   \<and> reachable (room_of_two '''')
   \<and> currentRoom (vars (room_of_two '''') 0) = JStr ''''
   \<and> rooms (room_of_two '''') (JStr '''') = Some [0, 1]
   \<and> readyState link 1 = OPEN
   \<and> relay_payload draw_msg = Some draw_payload
   \<and> sent (on_message link 0 (Some draw_msg) (room_of_two '''')) = []"
proof -
  have j: "sent (on_message link 1 (Some (join_msg (JStr '''') (JStr ''c2''))) (alone_in ''''))
     = [(1, [(''type'', JStr ''joined''), (''roomId'', JStr '''')])]"
    by (simp add: on_message_def join_msg_def join_def Let_def stringify_throws_def
        send_throws_def link_def OPEN_def CONNECTING_def)
  have a: "after (on_message link 1 (Some (join_msg (JStr '''') (JStr ''c2''))) (alone_in ''''))
     = room_of_two ''''"
    by (simp add: room_of_two_def alone_in_def said_def)
  have "sent (broadcast link 0 draw_payload (room_of_two '''')) = []"
    by (simp add: broadcast_def room_of_two_vars)
  with j a show ?thesis
    by (simp add: reachable_room_of_two room_of_two_vars room_of_two_rooms relay_draw_msg
        on_message_relay [OF relay_draw_msg] link_def)
qed

text \<open>
  C5. Every socket that a relay message is sent to is in the set of the room named
  by the sender's \<^verbatim>\<open>currentRoom\<close>, and is not the sender: a message relayed in one
  room never reaches a socket that is not in that room's set. In runs in which a
  \<^verbatim>\<open>join\<close> comes only from a socket that is in no other room, a socket that receives
  it is in the set of no other room either. (A socket that joined a second room
  without leaving the first is still in the first room's set, and still receives
  what is relayed there.)
\<close>

theorem fanout_within_room:
  assumes "relay_payload data = Some p"
  shows "set (map fst (sent (on_message t ws (Some data) s)))
           \<subseteq> set (members s (currentRoom (vars s ws))) - {ws}
     \<and> (reachable_by no_second_room s \<longrightarrow>
          (\<forall>c \<in> set (map fst (sent (on_message t ws (Some data) s))).
             \<forall>room. c \<in> set (members s room) \<longrightarrow> room = currentRoom (vars s ws)))"
proof -
  have sub: "set (map fst (sent (on_message t ws (Some data) s)))
           \<subseteq> set (members s (currentRoom (vars s ws))) - {ws}"
    using broadcast_sent_subset [of t ws p s] by (simp only: on_message_relay [OF assms])
  have "reachable_by no_second_room s \<longrightarrow>
          (\<forall>c \<in> set (map fst (sent (on_message t ws (Some data) s))).
             \<forall>room. c \<in> set (members s room) \<longrightarrow> room = currentRoom (vars s ws))"
  proof (intro impI ballI allI)
    fix c room
    assume r: "reachable_by no_second_room s"
      and c: "c \<in> set (map fst (sent (on_message t ws (Some data) s)))"
      and m: "c \<in> set (members s room)"
    from c sub have "c \<in> set (members s (currentRoom (vars s ws)))" by blast
    with m single_room_kept [OF r] show "room = currentRoom (vars s ws)"
      unfolding single_room_def by blast
  qed
  with sub show ?thesis by (rule conjI)
qed

text \<open>
  Sockets 0 and 1 are in \<^verbatim>\<open>R1\<close> and socket 2 is in \<^verbatim>\<open>R2\<close>: the \<^verbatim>\<open>draw\<close> of socket 0
  does not reach socket 2.
\<close>

theorem fanout_within_room_witness:
  "relay_payload draw_msg = Some draw_payload
   \<and> reachable_by no_second_room two_rooms
   \<and> set (map fst (sent (on_message link 0 (Some draw_msg) two_rooms)))
        \<subseteq> set (members two_rooms (currentRoom (vars two_rooms 0))) - {0}
   \<and> members two_rooms (JStr ''R2'') = [2]
   \<and> 2 \<notin> set (map fst (sent (on_message link 0 (Some draw_msg) two_rooms)))"
proof -
  have m: "members two_rooms (currentRoom (vars two_rooms 0)) = [0, 1]"
    by (simp add: members_def two_rooms_vars two_rooms_rooms)
  have m2: "members two_rooms (JStr ''R2'') = [2]"
    by (simp add: members_def two_rooms_rooms)
  from fanout_within_room [OF relay_draw_msg, of link 0 two_rooms] m m2
  show ?thesis by (auto simp: relay_draw_msg two_rooms_disciplined)
qed

text \<open>
  Socket 0 joined \<^verbatim>\<open>R1\<close> and then \<^verbatim>\<open>R2\<close>, and socket 1 joined \<^verbatim>\<open>R1\<close>: the \<^verbatim>\<open>draw\<close> that
  socket 1 relays in \<^verbatim>\<open>R1\<close> is sent to socket 0, a member of \<^verbatim>\<open>R2\<close> whose
  \<^verbatim>\<open>currentRoom\<close> is \<^verbatim>\<open>R2\<close>.
\<close>

theorem draw_reaches_member_of_other_room_counterexample:
  "reachable lingering
   \<and> currentRoom (vars lingering 1) = JStr ''R1''
   \<and> currentRoom (vars lingering 0) = JStr ''R2''
   \<and> members lingering (JStr ''R2'') = [0]
   \<and> JStr ''R1'' \<noteq> JStr ''R2''
   \<and> sent (on_message link 1 (Some draw_msg) lingering) = [(0, draw_payload)]"
proof -
  have v: "currentRoom (vars lingering 1) = JStr ''R1''"
    using lingering_vars by blast
  have h2: "truthy (currentRoom (vars lingering 1))"
    using v by simp
  have h3: "rooms lingering (currentRoom (vars lingering 1)) = Some [0, 1]"
    using v lingering_rooms by simp
  have "sent (on_message link 1 (Some draw_msg) lingering) = [(0, draw_payload)]"
    unfolding on_message_relay [OF relay_draw_msg] broadcast_joined [OF h2 h3]
    by (simp add: stringify_draw_payload recipients_link)
  then show ?thesis
    using reachable_lingering lingering_vars lingering_members by simp
qed

text \<open>
  C8. A relay message from a socket whose \<^verbatim>\<open>currentRoom\<close> is not set (it is \<^verbatim>\<open>null\<close>
  until the first \<^verbatim>\<open>join\<close>; any falsy value counts) is ignored: nothing is sent,
  nothing is raised, and the registry and the connections' variables stay as
  they were.
\<close>

theorem relay_without_room:
  assumes "\<not> truthy (currentRoom (vars s ws))" and "relay_payload data = Some p"
  shows "on_message t ws (Some data) s = \<lparr>after = s, sent = [], caught = None\<rparr>"
  by (simp only: on_message_relay [OF assms(2)] broadcast_unjoined [OF assms(1)])

theorem relay_without_room_witness:
  "\<not> truthy (currentRoom (vars init 0))
   \<and> relay_payload draw_msg = Some draw_payload
   \<and> on_message link 0 (Some draw_msg) init = \<lparr>after = init, sent = [], caught = None\<rparr>"
proof -
  have h: "\<not> truthy (currentRoom (vars init 0))"
    by (simp add: init_def)
  from relay_without_room [OF h relay_draw_msg, of link] h
  show ?thesis by (simp add: relay_draw_msg)
qed

text \<open>
  C6. Broadcast is best-effort. When the text sent to one recipient is lost, the
  fan-out still calls \<^verbatim>\<open>send\<close> once for every recipient of that run, so that every
  recipient whose own text is not lost is served; nothing is sent to the sender,
  no exception reaches the handler and the state is unchanged: the loss is not
  reported to the sender.
\<close>

theorem fanout_survives_lost_send:
  assumes "relay_payload data = Some p"
    and "(c, q) \<in> set (sent (on_message t ws (Some data) s))"
    and "send_fails t c"
  shows "sent (on_message t ws (Some data) s)
           = map (\<lambda>c'. (c', p)) (recipients t ws (members s (currentRoom (vars s ws))))
     \<and> (\<forall>c' \<in> set (recipients t ws (members s (currentRoom (vars s ws)))).
          \<not> send_fails t c' \<longrightarrow>
            (c', p) \<in> set (delivered t (sent (on_message t ws (Some data) s))))
     \<and> ws \<notin> set (map fst (sent (on_message t ws (Some data) s)))
     \<and> caught (on_message t ws (Some data) s) = None
     \<and> after (on_message t ws (Some data) s) = s"
proof -
  from assms(2) have "(c, q) \<in> set (sent (broadcast t ws p s))"
    by (simp only: on_message_relay [OF assms(1)])
  then have "broadcast t ws p s =
           \<lparr>after = s,
            sent = map (\<lambda>c. (c, p)) (recipients t ws (members s (currentRoom (vars s ws)))),
            caught = None\<rparr>"
    by (rule broadcast_sent_all)
  then have eq: "on_message t ws (Some data) s =
           \<lparr>after = s,
            sent = map (\<lambda>c. (c, p)) (recipients t ws (members s (currentRoom (vars s ws)))),
            caught = None\<rparr>"
    by (simp only: on_message_relay [OF assms(1)])
  have "ws \<notin> set (recipients t ws (members s (currentRoom (vars s ws))))"
    by (simp add: recipients_def)
  then show ?thesis
    by (auto simp: eq delivered_def comp_def)
qed

text \<open>
  Sockets 0, 1 and 2 are in \<^verbatim>\<open>R1\<close>, and what is sent to socket 1 is lost: the \<^verbatim>\<open>draw\<close>
  of socket 0 is still sent to socket 2 and arrives there.
\<close>

theorem fanout_survives_lost_send_witness:
  "relay_payload draw_msg = Some draw_payload
   \<and> (1, draw_payload) \<in> set (sent (on_message (lossy 1) 0 (Some draw_msg) room_of_three))
   \<and> send_fails (lossy 1) 1
   \<and> sent (on_message (lossy 1) 0 (Some draw_msg) room_of_three)
       = [(1, draw_payload), (2, draw_payload)]
   \<and> (2, draw_payload) \<in> set (delivered (lossy 1)
         (sent (on_message (lossy 1) 0 (Some draw_msg) room_of_three)))
   \<and> caught (on_message (lossy 1) 0 (Some draw_msg) room_of_three) = None"
proof -
  have h2: "truthy (currentRoom (vars room_of_three 0))"
    by (simp add: room_of_three_vars)
  have h3: "rooms room_of_three (currentRoom (vars room_of_three 0)) = Some [0, 1, 2]"
    by (simp add: room_of_three_vars room_of_three_rooms)
  have r: "recipients (lossy 1) 0 [0, 1, 2] = [1, 2]"
    by (simp add: recipients_def lossy_def link_def)
  have m: "members room_of_three (currentRoom (vars room_of_three 0)) = [0, 1, 2]"
    by (simp add: members_def h3)
  have a: "(1, draw_payload) \<in> set (sent (on_message (lossy 1) 0 (Some draw_msg) room_of_three))"
    using r
    by (simp add: on_message_relay [OF relay_draw_msg] broadcast_joined [OF h2 h3]
        stringify_draw_payload)
  have f: "send_fails (lossy 1) 1" "\<not> send_fails (lossy 1) 2"
    by (simp_all add: lossy_def link_def)
  from fanout_survives_lost_send [OF relay_draw_msg a f(1)] r m f a
  show ?thesis by (simp add: relay_draw_msg delivered_def)
qed

section \<open>Malformed payloads\<close>

text \<open>
  C7. A payload that \<^verbatim>\<open>JSON.parse\<close> rejects is logged and dropped: the handler
  leaves the registry and every connection's \<^verbatim>\<open>currentRoom\<close> and \<^verbatim>\<open>clientId\<close> as
  they were, sends nothing, and reports the error to \<^verbatim>\<open>console.error\<close> only. The
  connection stays usable: whatever it sends next is handled as if the malformed
  payload had never arrived.
\<close>

theorem malformed_payload_dropped:
  "after (on_message t ws None s) = s
   \<and> sent (on_message t ws None s) = []
   \<and> caught (on_message t ws None s) = Some SyntaxError
   \<and> on_message t' ws nxt (after (on_message t ws None s)) = on_message t' ws nxt s"
  by (simp add: on_message_def)

section \<open>The registry\<close>

text \<open>
  What holds of the registry: in every state reached by loggable messages, a room
  key is in the registry if and only if its set of members is not empty. A \<^verbatim>\<open>join\<close>
  puts the socket into the set of the room it names (creating the entry with it)
  and touches no other entry. A \<^verbatim>\<open>leave\<close> message and a close of the transport do
  the same thing to the registry; when the socket's \<^verbatim>\<open>currentRoom\<close> is truthy they
  remove the socket from that room's set, and the entry is deleted at once exactly
  when the set has become empty. Under a falsy \<^verbatim>\<open>currentRoom\<close>, and for a room other
  than \<^verbatim>\<open>currentRoom\<close>, they remove nothing.
\<close>

lemma registry_entry_iff_members:
  assumes "reachable_by loggable s"
  shows "(rooms s room \<noteq> None) = (members s room \<noteq> [])
     \<and> rooms (after (join t ws data s)) (get_field data ''roomId'')
          = Some (Set_add ws (members s (get_field data ''roomId'')))
     \<and> ws \<in> set (Set_add ws (members s (get_field data ''roomId'')))
     \<and> (room \<noteq> get_field data ''roomId'' \<longrightarrow> rooms (after (join t ws data s)) room = rooms s room)
     \<and> (get_field msg ''type'' = JStr ''leave'' \<longrightarrow>
          after (on_message t ws (Some msg) s) = after (leave t ws s))
     \<and> on_close t ws s = Inr (after (leave t ws s))
     \<and> (truthy (currentRoom (vars s ws)) \<longrightarrow>
          members (after (leave t ws s)) (currentRoom (vars s ws))
            = removeAll ws (members s (currentRoom (vars s ws)))
          \<and> (rooms (after (leave t ws s)) (currentRoom (vars s ws)) = None)
            = (removeAll ws (members s (currentRoom (vars s ws))) = []))
     \<and> (\<not> (room = currentRoom (vars s ws) \<and> truthy room) \<longrightarrow>
          rooms (after (leave t ws s)) room = rooms s room)"
proof -
  have lv: "log_line_exn t (clientId (vars s ws)) (currentRoom (vars s ws)) = None"
    using assms by (rule reachable_by_loggable_log_line)
  have a: "(rooms s room \<noteq> None) = (members s room \<noteq> [])"
    using reachable_by_loggable_nonempty [OF assms, of room]
    by (cases "rooms s room") (simp_all add: members_def)
  have b: "rooms (after (join t ws data s)) (get_field data ''roomId'')
          = Some (Set_add ws (members s (get_field data ''roomId'')))"
    by (simp add: join_after)
  have c: "ws \<in> set (Set_add ws (members s (get_field data ''roomId'')))"
    by (simp add: Set_add_def)
  have d: "room \<noteq> get_field data ''roomId'' \<longrightarrow> rooms (after (join t ws data s)) room = rooms s room"
    by (simp add: join_after)
  have e: "get_field msg ''type'' = JStr ''leave'' \<longrightarrow>
          after (on_message t ws (Some msg) s) = after (leave t ws s)"
    by (simp add: on_message_leave)
  have f: "on_close t ws s = Inr (after (leave t ws s))"
    using lv by (rule on_close_loggable)
  have g: "truthy (currentRoom (vars s ws)) \<longrightarrow>
          members (after (leave t ws s)) (currentRoom (vars s ws))
            = removeAll ws (members s (currentRoom (vars s ws)))
          \<and> (rooms (after (leave t ws s)) (currentRoom (vars s ws)) = None)
            = (removeAll ws (members s (currentRoom (vars s ws))) = [])"
    using lv by (simp add: members_leave rooms_leave_current)
  have h: "\<not> (room = currentRoom (vars s ws) \<and> truthy room) \<longrightarrow>
          rooms (after (leave t ws s)) room = rooms s room"
    by (auto simp: leave_after Let_def split: option.splits)
  from a b c d e f g h show ?thesis by blast
qed

text \<open>
  Why the messages have to be loggable: in \<^verbatim>\<open>leave\<close> the log line is built after the
  socket has been deleted from the set and before the empty room is deleted. When
  building it raises, the entry stays in the registry with an empty set; in the
  close handler the same exception is not caught at all.
\<close>

lemma leave_log_line_raises:
  "rooms (odd_client_in ''R1'') (JStr ''R1'') = Some [0]
   \<and> rooms (after (on_message link 0 (Some leave_msg) (odd_client_in ''R1''))) (JStr ''R1'') = Some []
   \<and> caught (on_message link 0 (Some leave_msg) (odd_client_in ''R1'')) = Some TypeError
   \<and> on_close link 0 (odd_client_in ''R1'') = Inl TypeError"
proof -
  have s: "odd_client_in ''R1'' =
      \<lparr>rooms = [JStr ''R1'' \<mapsto> [0]],
       vars = (\<lambda>ws. \<lparr>currentRoom = JNull, clientId = JNull\<rparr>)
                (0 := \<lparr>currentRoom = JStr ''R1'', clientId = JObj 1 [(''toString'', JNum 0)]\<rparr>)\<rparr>"
    by (simp add: odd_client_in_def said_join members_def Set_add_def init_def)
  have l: "on_message link 0 (Some leave_msg) (odd_client_in ''R1'') = leave link 0 (odd_client_in ''R1'')"
    by (simp add: on_message_leave leave_msg_def)
  have "rooms (after (leave link 0 (odd_client_in ''R1''))) (JStr ''R1'') = Some []
        \<and> caught (leave link 0 (odd_client_in ''R1'')) = Some TypeError"
    by (simp add: s leave_def Set_delete_def Let_def log_line_exn_def)
  moreover have "on_close link 0 (odd_client_in ''R1'') = Inl TypeError"
    by (simp add: s on_close_def Set_delete_def Let_def log_line_exn_def)
  ultimately show ?thesis using l by (simp add: s)
qed

text \<open>
  C2. When the last member of a room leaves or disconnects, the room's entry
  should be deleted at once. Socket 0 joined the room whose identifier is the
  empty string, was registered in it and got its confirmation, and is its only
  member. Neither its \<^verbatim>\<open>leave\<close> nor its close changes anything, because the guard
  of both is the truth test of \<^verbatim>\<open>currentRoom\<close>: the entry, with the closed socket
  in it, stays in the registry.
\<close>

theorem closed_socket_stays_in_room:
  "sent (on_message link 0 (Some (join_msg (JStr '''') (JStr ''c1''))) init)
     = [(0, [(''type'', JStr ''joined''), (''roomId'', JStr '''')])]
   \<and> after (on_message link 0 (Some (join_msg (JStr '''') (JStr ''c1''))) init) = alone_in ''''
   \<and> reachable (alone_in '''')
   \<and> members (alone_in '''') (JStr '''') = [0]
   \<and> on_close link 0 (alone_in '''') = Inr (alone_in '''')
   \<and> after (on_message link 0 (Some leave_msg) (alone_in '''')) = alone_in ''''
   \<and> rooms (alone_in '''') (JStr '''') = Some [0]"
proof -
  have j: "sent (on_message link 0 (Some (join_msg (JStr '''') (JStr ''c1''))) init)
     = [(0, [(''type'', JStr ''joined''), (''roomId'', JStr '''')])]"
    by (simp add: on_message_def join_msg_def join_def Let_def stringify_throws_def
        send_throws_def link_def OPEN_def CONNECTING_def)
  have a: "after (on_message link 0 (Some (join_msg (JStr '''') (JStr ''c1''))) init) = alone_in ''''"
    by (simp add: alone_in_def said_def)
  have c: "on_close link 0 (alone_in '''') = Inr (alone_in '''')"
    by (simp add: on_close_def alone_in_vars)
  have l: "after (leave link 0 (alone_in '''')) = alone_in ''''"
    by (simp add: leave_after alone_in_vars)
  have "get_field leave_msg ''type'' = JStr ''leave''"
    by (simp add: leave_msg_def)
  then have "after (on_message link 0 (Some leave_msg) (alone_in '''')) = alone_in ''''"
    by (simp add: on_message_leave l)
  with j a c show ?thesis
    by (simp add: reachable_alone_in members_def alone_in_rooms)
qed

text \<open>
  C4. No socket is in the sets of two rooms, in every state reached by messages
  among which a \<^verbatim>\<open>join\<close> comes only from a socket that is in no room other than the
  one it names (its first \<^verbatim>\<open>join\<close>, a \<^verbatim>\<open>join\<close> after a \<^verbatim>\<open>leave\<close> that removed it, or a
  repeated \<^verbatim>\<open>join\<close> of the same room).
\<close>

theorem one_room_per_connection:
  assumes "reachable_by no_second_room s"
  shows "single_room s"
  using assms
proof (induction rule: reachable_by_steps)
  case start
  show ?case by (simp add: single_room_def init_def members_def)
next
  case (join s t ws data)
  then show ?case by (simp add: single_room_join no_second_room_def)
next
  case (leave s t ws data)
  then have "single_room s" by blast
  then show ?case by (rule single_room_shrink) (rule members_leave_subset)
next
  case (close s t ws s')
  then have sr: "single_room s" and cl: "on_close t ws s = Inr s'" by blast+
  from sr show ?case by (rule single_room_shrink) (rule members_close_subset [OF cl])
qed

theorem one_room_per_connection_witness:
  "reachable_by no_second_room (room_of_two ''R1'') \<and> single_room (room_of_two ''R1'')"
proof -
  have a: "reachable_by no_second_room (alone_in ''R1'')"
    unfolding alone_in_def
    by (rule reachable_by_said [OF reachable_by.start])
       (simp add: no_second_room_def members_def init_def)
  have "no_second_room (alone_in ''R1'') 1 (join_msg (JStr ''R1'') (JStr ''c2''))"
    by (simp add: no_second_room_def join_msg_def alone_in_members)
  with a have r: "reachable_by no_second_room (room_of_two ''R1'')"
    unfolding room_of_two_def alone_in_def by (rule reachable_by_said)
  from one_room_per_connection [OF r] r show ?thesis by simp
qed

text \<open>
  Socket 0 joins \<^verbatim>\<open>R1\<close> and then \<^verbatim>\<open>R2\<close>: the second \<^verbatim>\<open>join\<close> leaves it in the set of
  \<^verbatim>\<open>R1\<close>, and it is a member of both rooms.
\<close>

theorem second_join_keeps_first_room_counterexample:
  "reachable moved_on
   \<and> 0 \<in> set (members moved_on (JStr ''R1''))
   \<and> 0 \<in> set (members moved_on (JStr ''R2''))
   \<and> JStr ''R1'' \<noteq> JStr ''R2''
   \<and> \<not> single_room moved_on"
proof -
  have r: "reachable moved_on"
    unfolding moved_on_def by (intro reachable_said reachable_alone_in)
  have m1: "members moved_on (JStr ''R1'') = [0]"
    by (simp add: moved_on_def said_join members_def alone_in_rooms)
  have m2: "members moved_on (JStr ''R2'') = [0]"
    by (simp add: moved_on_def said_join members_def Set_add_def alone_in_def init_def)
  have "\<not> single_room moved_on"
  proof
    assume "single_room moved_on"
    then have "JStr ''R1'' = JStr ''R2''"
      unfolding single_room_def using m1 m2 by (metis list.set_intros(1))
    then show False by simp
  qed
  with r m1 m2 show ?thesis by simp
qed

section \<open>Leaving\<close>

text \<open>
  C3. After its \<^verbatim>\<open>leave\<close> a socket should be unjoined and its relay messages should
  reach nobody until it joins again. The \<^verbatim>\<open>leave\<close> case removes the socket from the
  set but does not reset \<^verbatim>\<open>currentRoom\<close>: sockets 0 and 1 are in \<^verbatim>\<open>R1\<close>, socket 0
  leaves, and its next \<^verbatim>\<open>draw\<close> is still delivered to socket 1.
\<close>

theorem draw_after_leave_is_delivered:
  "reachable after_leave
   \<and> members after_leave (JStr ''R1'') = [1]
   \<and> currentRoom (vars after_leave 0) = JStr ''R1''
   \<and> sent (on_message link 0 (Some draw_msg) after_leave) = [(1, draw_payload)]"
proof -
  have r: "reachable after_leave"
    unfolding after_leave_def by (intro reachable_said reachable_room_of_two)
  have m: "rooms after_leave (JStr ''R1'') = Some [1]"
    by (simp add: after_leave_def said_leave leave_after room_of_two_closure room_of_two_rooms)
  have v: "currentRoom (vars after_leave 0) = JStr ''R1''"
    by (simp add: after_leave_def said_leave vars_leave room_of_two_vars)
  have h2: "truthy (currentRoom (vars after_leave 0))"
    by (simp add: v)
  have h3: "rooms after_leave (currentRoom (vars after_leave 0)) = Some [1]"
    by (simp add: v m)
  have "sent (broadcast link 0 draw_payload after_leave) = [(1, draw_payload)]"
    unfolding broadcast_joined [OF h2 h3]
    by (simp add: stringify_draw_payload recipients_link)
  with r m v show ?thesis
    by (simp add: on_message_relay [OF relay_draw_msg] members_def)
qed

section \<open>Payload fields\<close>

text \<open>
  C9. A relay message is rebuilt from the fields listed for its type and from
  nothing else. Whatever the inbound message holds, it is not rejected: the
  object built for it has \<^verbatim>\<open>type\<close> and exactly the listed fields, each with the
  value the inbound message has for it, \<^verbatim>\<open>undefined\<close> when the message lacks it
  (such a property is absent from the text that is sent), and from a socket whose
  \<^verbatim>\<open>currentRoom\<close> is truthy and in the registry that object is sent to every other
  open member of the room, unless \<^verbatim>\<open>JSON.stringify\<close> raises on it (a listed field
  nested deeper than the stack carries), in which case nothing is sent and the
  error is logged. A field that is not listed for the type is not passed on.
\<close>

theorem relay_carries_listed_fields_only:
  assumes "get_field data ''type'' = JStr ty" and "ty \<in> set relay_types"
    and "truthy (currentRoom (vars s ws))"
    and "rooms s (currentRoom (vars s ws)) = Some clients"
  shows "\<exists>p. relay_payload data = Some p
     \<and> map fst p = ''type'' # spec_fields ty
     \<and> own_property p ''type'' = JStr ty
     \<and> (\<forall>k \<in> set (spec_fields ty). own_property p k = get_field data k)
     \<and> (\<forall>k. k \<notin> set (''type'' # spec_fields ty) \<longrightarrow> own_property p k = JUndefined)
     \<and> sent (on_message t ws (Some data) s)
         = (if stringify_throws t p then [] else map (\<lambda>c. (c, p)) (recipients t ws clients))
     \<and> caught (on_message t ws (Some data) s)
         = (if stringify_throws t p \<and> recipients t ws clients \<noteq> [] then Some RangeError else None)"
proof -
  from assms(1,2) have
    "\<exists>p. relay_payload data = Some p
       \<and> map fst p = ''type'' # spec_fields ty
       \<and> own_property p ''type'' = JStr ty
       \<and> (\<forall>k \<in> set (spec_fields ty). own_property p k = get_field data k)"
    by (auto simp: relay_types_def relay_payload_def spec_fields_def)
  then obtain p where p: "relay_payload data = Some p"
      "map fst p = ''type'' # spec_fields ty"
      "own_property p ''type'' = JStr ty"
      "\<forall>k \<in> set (spec_fields ty). own_property p k = get_field data k"
    by (elim exE conjE) (rule that, assumption+)
  from p(2) have q: "\<forall>k. k \<notin> set (''type'' # spec_fields ty) \<longrightarrow> own_property p k = JUndefined"
    using own_property_absent [of _ p] by simp
  have eq: "on_message t ws (Some data) s =
     \<lparr>after = s,
      sent = (if stringify_throws t p then [] else map (\<lambda>c. (c, p)) (recipients t ws clients)),
      caught = (if stringify_throws t p \<and> recipients t ws clients \<noteq> []
                then Some RangeError else None)\<rparr>"
    by (simp only: on_message_relay [OF p(1)] broadcast_joined [OF assms(3,4)])
  have r1: "sent (on_message t ws (Some data) s)
         = (if stringify_throws t p then [] else map (\<lambda>c. (c, p)) (recipients t ws clients))"
    by (simp add: eq)
  have r2: "caught (on_message t ws (Some data) s)
         = (if stringify_throws t p \<and> recipients t ws clients \<noteq> [] then Some RangeError else None)"
    by (simp add: eq)
  show ?thesis
    by (intro exI [of _ p] conjI p q r1 r2)
qed

text \<open>
  Sockets 0 and 1 are in \<^verbatim>\<open>R1\<close>, and socket 0 sends a \<^verbatim>\<open>draw\<close> that has \<^verbatim>\<open>x\<close> only:
  socket 1 is sent the object, with \<^verbatim>\<open>x\<close> as sent and \<^verbatim>\<open>color\<close> undefined.
\<close>

theorem relay_carries_listed_fields_only_witness:
  "get_field sparse_draw_msg ''type'' = JStr ''draw''
   \<and> ''draw'' \<in> set relay_types
   \<and> truthy (currentRoom (vars (room_of_two ''R1'') 0))
   \<and> rooms (room_of_two ''R1'') (currentRoom (vars (room_of_two ''R1'') 0)) = Some [0, 1]
   \<and> ''color'' \<in> set (spec_fields ''draw'')
   \<and> (\<exists>p. sent (on_message link 0 (Some sparse_draw_msg) (room_of_two ''R1'')) = [(1, p)]
        \<and> own_property p ''x'' = JNum 1
        \<and> own_property p ''color'' = JUndefined)"
proof -
  have h1: "get_field sparse_draw_msg ''type'' = JStr ''draw''"
    by (simp add: sparse_draw_msg_def)
  have h2: "''draw'' \<in> set relay_types"
    by (simp add: relay_types_def)
  have h3: "truthy (currentRoom (vars (room_of_two ''R1'') 0))"
    by (simp add: room_of_two_vars)
  have h4: "rooms (room_of_two ''R1'') (currentRoom (vars (room_of_two ''R1'') 0)) = Some [0, 1]"
    by (simp add: room_of_two_vars room_of_two_rooms)
  have f: "''color'' \<in> set (spec_fields ''draw'')" "''x'' \<in> set (spec_fields ''draw'')"
    by (simp_all add: spec_fields_def)
  have g: "get_field sparse_draw_msg ''x'' = JNum 1" "get_field sparse_draw_msg ''color'' = JUndefined"
    by (simp_all add: sparse_draw_msg_def)
  from relay_carries_listed_fields_only [OF h1 h2 h3 h4, of link]
  obtain p where p: "relay_payload sparse_draw_msg = Some p"
      "\<forall>k \<in> set (spec_fields ''draw''). own_property p k = get_field sparse_draw_msg k"
      "sent (on_message link 0 (Some sparse_draw_msg) (room_of_two ''R1''))
         = (if stringify_throws link p then [] else map (\<lambda>c. (c, p)) (recipients link 0 [0, 1]))"
    by (elim exE conjE) (rule that, assumption+)
  from p(1) have e: "p = sparse_draw_payload"
    by (simp add: relay_sparse_draw_msg)
  from p(2) f g have x: "own_property p ''x'' = JNum 1" and c: "own_property p ''color'' = JUndefined"
    by auto
  from p(3) have s: "sent (on_message link 0 (Some sparse_draw_msg) (room_of_two ''R1'')) = [(1, p)]"
    by (simp add: e stringify_sparse_draw_payload recipients_link)
  have "\<exists>p. sent (on_message link 0 (Some sparse_draw_msg) (room_of_two ''R1'')) = [(1, p)]
        \<and> own_property p ''x'' = JNum 1
        \<and> own_property p ''color'' = JUndefined"
    by (intro exI [of _ p] conjI s x c)
  then show ?thesis
    by (intro conjI h1 h2 h3 h4 f(1))
qed

text \<open>
  The same \<^verbatim>\<open>draw\<close> has a field \<^verbatim>\<open>pressure\<close>, which is not listed for \<^verbatim>\<open>draw\<close>: the
  object that socket 1 is sent does not have it. And a \<^verbatim>\<open>draw\<close> with no \<^verbatim>\<open>color\<close>
  whose \<^verbatim>\<open>drawerId\<close> is nested 9999 deep is not relayed: \<^verbatim>\<open>JSON.stringify\<close> raises
  in the loop, nothing is sent to socket 1, and the error is logged.
\<close>

theorem unlisted_field_is_dropped_counterexample:
  "get_field sparse_draw_msg ''pressure'' = JNum 7
   \<and> sent (on_message link 0 (Some sparse_draw_msg) (room_of_two ''R1''))
       = [(1, sparse_draw_payload)]
   \<and> own_property sparse_draw_payload ''pressure'' = JUndefined
   \<and> get_field deep_draw_msg ''type'' = JStr ''draw''
   \<and> get_field deep_draw_msg ''color'' = JUndefined
   \<and> sent (on_message link 0 (Some deep_draw_msg) (room_of_two ''R1'')) = []
   \<and> caught (on_message link 0 (Some deep_draw_msg) (room_of_two ''R1'')) = Some RangeError"
proof -
  have h3: "truthy (currentRoom (vars (room_of_two ''R1'') 0))"
    by (simp add: room_of_two_vars)
  have h4: "rooms (room_of_two ''R1'') (currentRoom (vars (room_of_two ''R1'') 0)) = Some [0, 1]"
    by (simp add: room_of_two_vars room_of_two_rooms)
  have a: "sent (on_message link 0 (Some sparse_draw_msg) (room_of_two ''R1''))
       = [(1, sparse_draw_payload)]"
    unfolding on_message_relay [OF relay_sparse_draw_msg] broadcast_joined [OF h3 h4]
    by (simp add: stringify_sparse_draw_payload recipients_link)
  have b: "sent (on_message link 0 (Some deep_draw_msg) (room_of_two ''R1'')) = []
       \<and> caught (on_message link 0 (Some deep_draw_msg) (room_of_two ''R1'')) = Some RangeError"
    unfolding on_message_relay [OF relay_deep_draw_msg] broadcast_joined [OF h3 h4]
    by (simp add: stringify_deep_draw_payload recipients_link)
  have c: "get_field sparse_draw_msg ''pressure'' = JNum 7
       \<and> own_property sparse_draw_payload ''pressure'' = JUndefined"
    by (simp add: sparse_draw_msg_def sparse_draw_payload_def)
  have d: "get_field deep_draw_msg ''type'' = JStr ''draw''
       \<and> get_field deep_draw_msg ''color'' = JUndefined"
    by (simp add: deep_draw_msg_def)
  from a b c d show ?thesis by simp
qed

section \<open>Joining without a room identifier\<close>

text \<open>
  A \<^verbatim>\<open>join\<close> is not validated. When its \<^verbatim>\<open>roomId\<close> is absent, \<^verbatim>\<open>currentRoom\<close> becomes
  \<^verbatim>\<open>undefined\<close> and the socket becomes a member of the room under the key
  \<^verbatim>\<open>undefined\<close>; when moreover its \<^verbatim>\<open>clientId\<close> converts to a string and the socket
  is not \<^verbatim>\<open>CONNECTING\<close>, one confirmation goes back to the socket and nothing is
  raised.
\<close>

lemma join_without_room_id:
  assumes "get_field data ''type'' = JStr ''join''"
    and "get_field data ''roomId'' = JUndefined"
  shows "currentRoom (vars (after (on_message t ws (Some data) s)) ws) = JUndefined
     \<and> ws \<in> set (members (after (on_message t ws (Some data) s)) JUndefined)
     \<and> (ToString_exn (toString_levels t) (get_field data ''clientId'') = None
          \<and> \<not> send_throws t ws \<longrightarrow>
          sent (on_message t ws (Some data) s) = [(ws, [(''type'', JStr ''joined''), (''roomId'', JUndefined)])]
          \<and> caught (on_message t ws (Some data) s) = None)"
proof -
  from assms(1) have "data \<noteq> JNull \<and> data \<noteq> JUndefined" by auto
  with assms(1) have j: "on_message t ws (Some data) s = join t ws data s"
    by (simp add: on_message_def)
  have "ws \<in> set (members (after (join t ws data s)) JUndefined)"
    using assms(2) by (simp add: members_join Set_add_def)
  moreover have "currentRoom (vars (after (join t ws data s)) ws) = JUndefined"
    using assms(2) by (simp add: join_after)
  moreover have "ToString_exn (toString_levels t) (get_field data ''clientId'') = None
          \<and> \<not> send_throws t ws \<longrightarrow>
          sent (join t ws data s) = [(ws, [(''type'', JStr ''joined''), (''roomId'', JUndefined)])]
          \<and> caught (join t ws data s) = None"
    using assms(2) by (simp add: join_def Let_def log_line_exn_def stringify_throws_def)
  ultimately show ?thesis using j by simp
qed

text \<open>
  C10. The log line of the \<^verbatim>\<open>join\<close> case is built between the registration and the
  confirmation. For the message \<^verbatim>\<open>{"type": "join", "clientId": {"toString": 0}}\<close>,
  which has no \<^verbatim>\<open>roomId\<close>, building it raises a \<^verbatim>\<open>TypeError\<close>: the socket has been
  put into the room under the key \<^verbatim>\<open>undefined\<close>, an error is raised and logged, and
  no confirmation is sent.
\<close>

theorem join_log_line_raises:
  "get_field odd_join_msg ''type'' = JStr ''join''
   \<and> get_field odd_join_msg ''roomId'' = JUndefined
   \<and> currentRoom (vars (after (on_message link 0 (Some odd_join_msg) init)) 0) = JUndefined
   \<and> members (after (on_message link 0 (Some odd_join_msg) init)) JUndefined = [0]
   \<and> sent (on_message link 0 (Some odd_join_msg) init) = []
   \<and> caught (on_message link 0 (Some odd_join_msg) init) = Some TypeError"
proof -
  have j: "on_message link 0 (Some odd_join_msg) init = join link 0 odd_join_msg init"
    by (simp add: on_message_def odd_join_msg_def)
  have "sent (join link 0 odd_join_msg init) = []
        \<and> caught (join link 0 odd_join_msg init) = Some TypeError"
    by (simp add: join_def Let_def odd_join_msg_def log_line_exn_def)
  moreover have "members (after (join link 0 odd_join_msg init)) JUndefined = [0]"
  proof -
    have "get_field odd_join_msg ''roomId'' = JUndefined"
      by (simp add: odd_join_msg_def)
    then have "members (after (join link 0 odd_join_msg init)) JUndefined
                 = Set_add 0 (members init JUndefined)"
      by (simp add: members_join)
    then show ?thesis
      by (simp add: Set_add_def members_def init_def)
  qed
  moreover have "currentRoom (vars (after (join link 0 odd_join_msg init)) 0) = JUndefined"
    by (simp add: join_after odd_join_msg_def)
  ultimately show ?thesis using j by (simp add: odd_join_msg_def)
qed


end
